theory Spec2Isabelle
  imports Main "HOL-Library.Sublist"
begin

section \<open>JavaScript values and string primitives used by the campaign functions\<close>

text \<open>
  JavaScript strings are modelled as HOL strings (lists of characters). An uploaded row
  and the placeholder mapping are objects whose own properties hold strings: the CSV is
  parsed with \<^verbatim>\<open>header: true\<close> and no dynamic typing, and the mapping is a
  \<^verbatim>\<open>Record<string, string>\<close>. Such an object is the map of its own properties.
\<close>

type_synonym csv_row = "string \<rightharpoonup> string"

text \<open>
  The mapping object is kept as the list that \<^verbatim>\<open>Object.entries\<close> returns, since the
  dispatcher walks it in that order.
\<close>

type_synonym placeholder_mappings = "(string \<times> string) list"

text \<open>
  Reading a property, \<^verbatim>\<open>obj[key]\<close>, finds the object's own property first and then the
  members every object inherits from \<^verbatim>\<open>Object.prototype\<close>. What is read is a string,
  \<^verbatim>\<open>undefined\<close>, or the inherited member of that name: a function, except for
  \<^verbatim>\<open>__proto__\<close>, which reads as the prototype object itself.
\<close>

datatype js_value = Undefined | Str string | Inherited string

definition object_prototype :: "string list" where
  "object_prototype =
     [''constructor'', ''toString'', ''toLocaleString'', ''valueOf'', ''hasOwnProperty'',
      ''isPrototypeOf'', ''propertyIsEnumerable'', ''__defineGetter__'', ''__defineSetter__'',
      ''__lookupGetter__'', ''__lookupSetter__'', ''__proto__'']"

definition js_get :: "(string \<rightharpoonup> string) \<Rightarrow> string \<Rightarrow> js_value" where
  "js_get obj key =
     (case obj key of
        Some s \<Rightarrow> Str s
      | None \<Rightarrow> if key \<in> set object_prototype then Inherited key else Undefined)"

text \<open>The empty string and \<^verbatim>\<open>undefined\<close> are falsy; functions and objects are truthy.\<close>

fun truthy :: "js_value \<Rightarrow> bool" where
  "truthy Undefined = False"
| "truthy (Str s) = (s \<noteq> [])"
| "truthy (Inherited n) = True"

text \<open>\<^verbatim>\<open>a || b\<close>\<close>

definition js_or :: "js_value \<Rightarrow> js_value \<Rightarrow> js_value" where
  "js_or a b = (if truthy a then a else b)"

text \<open>
  The replacement-template expansion of \<^verbatim>\<open>String.prototype.replace\<close> when the
  replacement is a string and the pattern has no capture group: \<^verbatim>\<open>$$\<close> gives a dollar
  sign, \<^verbatim>\<open>$&\<close> the matched text, \<^verbatim>\<open>$`\<close> the part of the subject before the match and
  \<^verbatim>\<open>$'\<close> the part after it; every other character, a dollar sign followed by a digit
  included, stands for itself.
\<close>

fun GetSubstitution :: "string \<Rightarrow> string \<Rightarrow> string \<Rightarrow> string \<Rightarrow> string" where
  "GetSubstitution matched pre post [] = []"
| "GetSubstitution matched pre post [c] = [c]"
| "GetSubstitution matched pre post (c # d # t) =
     (if c = CHR ''$'' \<and> d = CHR ''$'' then CHR ''$'' # GetSubstitution matched pre post t
      else if c = CHR ''$'' \<and> d = CHR 0x60 then pre @ GetSubstitution matched pre post t
      else if c = CHR ''$'' \<and> d = CHR ''&'' then matched @ GetSubstitution matched pre post t
      else if c = CHR ''$'' \<and> d = CHR 0x27 then post @ GetSubstitution matched pre post t
      else c # GetSubstitution matched pre post (d # t))"

text \<open>
  An inherited function given to \<^verbatim>\<open>replace\<close> is called for each match, with \<^verbatim>\<open>this\<close>
  undefined and the matched text as first argument, and its result is inserted as it
  stands. \<^verbatim>\<open>constructor\<close> (that is \<^verbatim>\<open>Object\<close>) wraps the matched text, which converts
  back to it; \<^verbatim>\<open>toString\<close> answers \<^verbatim>\<open>[object Undefined]\<close>; \<^verbatim>\<open>isPrototypeOf\<close> answers
  \<^verbatim>\<open>false\<close>; the other members convert \<^verbatim>\<open>this\<close> to an object first and raise a
  \<^verbatim>\<open>TypeError\<close> (\<open>None\<close>).
\<close>

definition call_member :: "string \<Rightarrow> string \<Rightarrow> string option" where
  "call_member n matched =
     (if n = ''constructor'' then Some matched
      else if n = ''toString'' then Some ''[object Undefined]''
      else if n = ''isPrototypeOf'' then Some ''false''
      else None)"

text \<open>
  What one match is replaced by, for each kind of replacement value. A value that is not
  callable is converted to a string and used as a template: \<^verbatim>\<open>undefined\<close> becomes
  \<^verbatim>\<open>undefined\<close> and the prototype object \<^verbatim>\<open>[object Object]\<close>.
\<close>

fun substitution :: "js_value \<Rightarrow> string \<Rightarrow> string \<Rightarrow> string \<Rightarrow> string option" where
  "substitution (Str s) matched pre post = Some (GetSubstitution matched pre post s)"
| "substitution Undefined matched pre post = Some ''undefined''"
| "substitution (Inherited n) matched pre post =
     (if n = ''__proto__'' then Some ''[object Object]'' else call_member n matched)"

text \<open>
  \<^verbatim>\<open>s.replace(new RegExp(escaped, 'g'), v)\<close> where \<^verbatim>\<open>escaped\<close> is \<open>pat\<close> with each of
  \<^verbatim>\<open>. * + ? ^ $ { } ( ) | [ ] \\<close> preceded by a backslash. Those are all the syntax
  characters of a pattern, so the expression matches the text \<open>pat\<close> and nothing else.
  The global replace scans from the left: \<open>pre\<close> is the part of the subject already
  passed, \<open>rest\<close> what remains. A match is replaced and the scan goes on after it; the
  empty pattern matches once at every position, the end included. The result is \<open>None\<close>
  when a replacement raises.
\<close>

function replace_from :: "string \<Rightarrow> js_value \<Rightarrow> string \<Rightarrow> string \<Rightarrow> string option" where
  "replace_from pat v pre rest =
     (if pat = [] then
        (case substitution v [] pre rest of
           None \<Rightarrow> None
         | Some r \<Rightarrow>
             (case rest of
                [] \<Rightarrow> Some r
              | c # cs \<Rightarrow>
                  (case replace_from pat v (pre @ [c]) cs of
                     None \<Rightarrow> None
                   | Some out \<Rightarrow> Some (r @ c # out))))
      else if prefix pat rest then
        (case substitution v pat pre (drop (length pat) rest) of
           None \<Rightarrow> None
         | Some r \<Rightarrow>
             (case replace_from pat v (pre @ pat) (drop (length pat) rest) of
                None \<Rightarrow> None
              | Some out \<Rightarrow> Some (r @ out)))
      else
        (case rest of
           [] \<Rightarrow> Some []
         | c # cs \<Rightarrow>
             (case replace_from pat v (pre @ [c]) cs of
                None \<Rightarrow> None
              | Some out \<Rightarrow> Some (c # out))))"
  by pat_completeness auto
termination
  by (relation "measure (\<lambda>(pat, v, pre, rest). length rest)") (auto simp: prefix_def)

declare replace_from.simps [simp del]

definition replace_g :: "string \<Rightarrow> js_value \<Rightarrow> string \<Rightarrow> string option" where
  "replace_g pat v s = replace_from pat v [] s"

section \<open>Rendering\<close>

text \<open>
  A template as the functions read it: its \<^verbatim>\<open>subject\<close> and \<^verbatim>\<open>body\<close>, each a string or
  missing. The template itself may be \<^verbatim>\<open>null\<close>, as it is in the wizard before a
  template is saved; that is \<open>None\<close> where a template is passed.
\<close>

record template =
  subject :: "string option"
  body :: "string option"

text \<open>The runtime errors the rendering can raise: a property read on \<^verbatim>\<open>null\<close> or
  \<^verbatim>\<open>undefined\<close>, \<^verbatim>\<open>replace\<close> called on a subject or body that is \<^verbatim>\<open>undefined\<close>, and an
  inherited function that raises when \<^verbatim>\<open>replace\<close> calls it.\<close>

datatype fault = Read_on_null | Replace_on_undefined | Member_raised js_value

text \<open>\<^verbatim>\<open>text = text.replace(regex, v)\<close>\<close>

definition replace_in :: "string \<Rightarrow> js_value \<Rightarrow> string option \<Rightarrow> fault + string option" where
  "replace_in pat v text =
     (case text of
        None \<Rightarrow> Inl Replace_on_undefined
      | Some s \<Rightarrow>
          (case replace_g pat v s of
             None \<Rightarrow> Inl (Member_raised v)
           | Some out \<Rightarrow> Inr (Some out)))"

text \<open>
  The placeholder loop of \<^verbatim>\<open>sendEmailsInBackground\<close>: for each entry of the mapping, in
  order, \<^verbatim>\<open>value = recipient.data[csvColumn] || ''\<close> replaces the placeholder in the
  subject and then in the body built so far.
\<close>

fun personalize_loop :: "placeholder_mappings \<Rightarrow> csv_row \<Rightarrow> string option \<times> string option
    \<Rightarrow> fault + (string option \<times> string option)" where
  "personalize_loop [] row sb = Inr sb"
| "personalize_loop ((placeholder, csvColumn) # entries) row (personalizedSubject, personalizedBody) =
     (let val = js_or (js_get row csvColumn) (Str [])
      in case replace_in placeholder val personalizedSubject of
           Inl f \<Rightarrow> Inl f
         | Inr new_subject \<Rightarrow>
             (case replace_in placeholder val personalizedBody of
                Inl f \<Rightarrow> Inl f
              | Inr new_body \<Rightarrow> personalize_loop entries row (new_subject, new_body)))"

text \<open>The rendering of one recipient, from \<^verbatim>\<open>let personalizedSubject = template.subject\<close>
  to the end of the loop.\<close>

definition personalize :: "template option \<Rightarrow> placeholder_mappings \<Rightarrow> csv_row
    \<Rightarrow> fault + (string option \<times> string option)" where
  "personalize t m row =
     (case t of
        None \<Rightarrow> Inl Read_on_null
      | Some tpl \<Rightarrow> personalize_loop m row (subject tpl, body tpl))"

text \<open>
  The same rendering in \<^verbatim>\<open>generatePreview\<close> of the preview step, after its guard has
  found a template, for the template's placeholder list and the sample row it drew
  (\<open>None\<close> when the list of rows is empty). It substitutes only where the placeholder is
  mapped and the row has a truthy value under the mapped header. A mapped header that
  is an inherited member is turned into a property key by its string conversion, which
  for a function is the text \<open>src\<close> that the engine prints for it.
\<close>

definition property_key :: "(string \<Rightarrow> string) \<Rightarrow> js_value \<Rightarrow> string" where
  "property_key src v =
     (case v of
        Str s \<Rightarrow> s
      | Undefined \<Rightarrow> ''undefined''
      | Inherited n \<Rightarrow> if n = ''__proto__'' then ''[object Object]'' else src n)"

fun preview_loop :: "(string \<Rightarrow> string) \<Rightarrow> string list \<Rightarrow> placeholder_mappings \<Rightarrow> csv_row option
    \<Rightarrow> string option \<times> string option \<Rightarrow> fault + (string option \<times> string option)" where
  "preview_loop src [] m randomRow sb = Inr sb"
| "preview_loop src (placeholder # ps) m randomRow (previewSubject, previewBody) =
     (let mappedHeader = js_get (map_of m) placeholder
      in if \<not> truthy mappedHeader then preview_loop src ps m randomRow (previewSubject, previewBody)
         else
           (case randomRow of
              None \<Rightarrow> Inl Read_on_null
            | Some row \<Rightarrow>
                (let cell = js_get row (property_key src mappedHeader)
                 in if \<not> truthy cell then preview_loop src ps m randomRow (previewSubject, previewBody)
                    else
                      (case replace_in placeholder cell previewSubject of
                         Inl f \<Rightarrow> Inl f
                       | Inr new_subject \<Rightarrow>
                           (case replace_in placeholder cell previewBody of
                              Inl f \<Rightarrow> Inl f
                            | Inr new_body \<Rightarrow>
                                preview_loop src ps m randomRow (new_subject, new_body))))))"

definition generatePreview :: "(string \<Rightarrow> string) \<Rightarrow> template \<Rightarrow> string list \<Rightarrow> placeholder_mappings
    \<Rightarrow> csv_row option \<Rightarrow> fault + (string option \<times> string option)" where
  "generatePreview src t placeholders m randomRow =
     preview_loop src placeholders m randomRow (subject t, body t)"

text \<open>
  The address of a recipient as the launch handler computes it:
  \<^verbatim>\<open>row[placeholderMappings['{{email}}'] || 'email'] || row.email\<close>. The key \<^verbatim>\<open>{{email}}\<close> is
  not the name of an inherited member, so the mapping is read through its own
  properties; the row is read with the column the mapping gives, whatever its name.
\<close>

definition email_column :: "placeholder_mappings \<Rightarrow> string" where
  "email_column m =
     (case map_of m ''{{email}}'' of
        None \<Rightarrow> ''email''
      | Some c \<Rightarrow> if c = [] then ''email'' else c)"

definition recipient_email :: "placeholder_mappings \<Rightarrow> csv_row \<Rightarrow> js_value" where
  "recipient_email m row = js_or (js_get row (email_column m)) (js_get row ''email'')"

section \<open>The store\<close>

text \<open>
  Modelled from the spec: the hosted database and the declarations of its two tables are
  not among the sources. Recipient rows carry campaign id, user id, email, status, the
  raw record, an optional error message and an optional sent timestamp; campaign rows
  carry status, total recipients, sent count, failed count and an optional completion
  timestamp. Rows have the \<^verbatim>\<open>id\<close> the functions filter on. An insert appends rows under
  fresh ids; an update changes the rows that satisfy its \<^verbatim>\<open>.eq('id', ...)\<close> filter and no
  other. A filter value that is \<^verbatim>\<open>undefined\<close> (\<open>None\<close>) is the id of no row.
\<close>

datatype recipient_status = Pending | Sent | Failed

datatype campaign_status = Draft | Active | Completed | Paused

record smtp_config =
  host :: string
  port :: nat
  senderEmail :: string
  senderName :: string
  appPassword :: string

text \<open>
  The objects the launch handler builds from the uploaded rows and hands to the
  dispatcher. The dispatcher reads \<^verbatim>\<open>recipient.id\<close> as well, so the property is part of
  the record; it is \<open>None\<close> on an object that has no such property. The address is
  whatever the handler's expression evaluated to.
\<close>

record recipient =
  recipient_id :: "nat option"
  campaign_id :: string
  user_id :: string
  email :: js_value
  status :: recipient_status
  data :: csv_row

record recipient_row =
  row_id :: nat
  row_campaign_id :: string
  row_user_id :: string
  row_email :: js_value
  row_status :: recipient_status
  row_data :: csv_row
  row_error_message :: "string option"
  row_sent_at :: "string option"

record campaign_row =
  campaign_state :: campaign_status
  total_recipients :: nat
  sent_count :: nat
  failed_count :: nat
  completed_at :: "string option"

record db =
  recipients_table :: "recipient_row list"
  campaigns_table :: "string \<rightharpoonup> campaign_row"

definition new_row :: "nat \<times> recipient \<Rightarrow> recipient_row" where
  "new_row ir =
     \<lparr>row_id = fst ir, row_campaign_id = campaign_id (snd ir), row_user_id = user_id (snd ir),
      row_email = email (snd ir), row_status = status (snd ir), row_data = data (snd ir),
      row_error_message = None, row_sent_at = None\<rparr>"

definition insert_recipients :: "recipient list \<Rightarrow> db \<Rightarrow> db" where
  "insert_recipients rs d =
     d\<lparr>recipients_table :=
         recipients_table d @ map new_row (enumerate (length (recipients_table d)) rs)\<rparr>"

definition update_recipients_eq_id :: "nat option \<Rightarrow> (recipient_row \<Rightarrow> recipient_row) \<Rightarrow> db \<Rightarrow> db" where
  "update_recipients_eq_id ident f d =
     d\<lparr>recipients_table :=
         map (\<lambda>row. if ident = Some (row_id row) then f row else row) (recipients_table d)\<rparr>"

definition update_campaigns_eq_id :: "string \<Rightarrow> (campaign_row \<Rightarrow> campaign_row) \<Rightarrow> db \<Rightarrow> db" where
  "update_campaigns_eq_id ident f d =
     (case campaigns_table d ident of
        None \<Rightarrow> d
      | Some c \<Rightarrow> d\<lparr>campaigns_table := (campaigns_table d)(ident \<mapsto> f c)\<rparr>)"

section \<open>The collaborators\<close>

text \<open>
  What the functions call and do not define: the auth service (\<^verbatim>\<open>getUser\<close>, \<open>None\<close> for
  an error or no user), whether the store reports an error for the handler's insert and
  for its campaign update, the \<^verbatim>\<open>send-email\<close> function (\<open>Some message\<close> when the
  invocation returns an error, \<open>None\<close> when it succeeds), the clock, and the message the
  runtime gives a \<^verbatim>\<open>TypeError\<close>. The mail function and the clock are asked at most once
  per recipient; their first argument is the position of the recipient in the list.
\<close>

record email_data =
  mail_to :: js_value
  mail_subject :: "string option"
  mail_html :: "string option"
  mail_smtp :: "smtp_config option"

record env =
  getUser :: "string \<Rightarrow> string option"
  recipientsError :: "recipient list \<Rightarrow> bool"
  campaignUpdateError :: "string \<Rightarrow> bool"
  send_email :: "nat \<Rightarrow> email_data \<Rightarrow> string option"
  now :: "nat \<Rightarrow> string"
  typeError :: "fault \<Rightarrow> string"

section \<open>The dispatcher\<close>

text \<open>What one run does to the outside, in order.\<close>

datatype event =
    Invoke_send_email email_data
  | Mark_sent "nat option" string
  | Mark_failed "nat option" string
  | Wait nat
  | Save_progress string nat nat
  | Save_final string campaign_status nat nat "string option"

record run_state =
  sentCount :: nat
  failedCount :: nat
  store :: db
  trace :: "event list"

definition emailData :: "recipient \<Rightarrow> string option \<times> string option \<Rightarrow> smtp_config option \<Rightarrow> email_data" where
  "emailData r personalized smtpConfig =
     \<lparr>mail_to = email r, mail_subject = fst personalized, mail_html = snd personalized,
      mail_smtp = smtpConfig\<rparr>"

text \<open>The \<^verbatim>\<open>catch\<close> block: the recipient is marked failed with the error's message and
  \<^verbatim>\<open>failedCount\<close> goes up.\<close>

definition catch_block :: "recipient \<Rightarrow> string \<Rightarrow> run_state \<Rightarrow> run_state" where
  "catch_block r message st =
     st\<lparr>failedCount := failedCount st + 1,
        store := update_recipients_eq_id (recipient_id r)
                   (\<lambda>row. row\<lparr>row_status := Failed, row_error_message := Some message\<rparr>) (store st),
        trace := trace st @ [Mark_failed (recipient_id r) message]\<rparr>"

text \<open>
  The body of the loop up to the end of its \<^verbatim>\<open>try\<close>/\<^verbatim>\<open>catch\<close>. The \<^verbatim>\<open>try\<close> block renders
  first; a runtime error there goes to the \<^verbatim>\<open>catch\<close> block before anything is sent.
  Otherwise the mail function is invoked. When the invocation succeeds the recipient is
  marked sent, \<^verbatim>\<open>sentCount\<close> goes up and the function waits 1000 ms; when it returns an
  error, that error is thrown to the \<^verbatim>\<open>catch\<close> block. The results of the store's updates
  are not looked at.
\<close>

definition attempt :: "env \<Rightarrow> template option \<Rightarrow> placeholder_mappings \<Rightarrow> smtp_config option \<Rightarrow> nat
    \<Rightarrow> recipient \<Rightarrow> run_state \<Rightarrow> run_state" where
  "attempt e t m smtpConfig i r st =
     (case personalize t m (data r) of
        Inl f \<Rightarrow> catch_block r (typeError e f) st
      | Inr personalized \<Rightarrow>
          (case send_email e i (emailData r personalized smtpConfig) of
             None \<Rightarrow>
               st\<lparr>sentCount := sentCount st + 1,
                  store := update_recipients_eq_id (recipient_id r)
                             (\<lambda>row. row\<lparr>row_status := Sent, row_sent_at := Some (now e i)\<rparr>) (store st),
                  trace := trace st @ [Invoke_send_email (emailData r personalized smtpConfig),
                                       Mark_sent (recipient_id r) (now e i), Wait 1000]\<rparr>
           | Some message \<Rightarrow>
               catch_block r message
                 (st\<lparr>trace := trace st @ [Invoke_send_email (emailData r personalized smtpConfig)]\<rparr>)))"

text \<open>\<^verbatim>\<open>if ((sentCount + failedCount) % 10 === 0)\<close>: the progress update.\<close>

definition checkpoint :: "string \<Rightarrow> run_state \<Rightarrow> run_state" where
  "checkpoint campaignId st =
     (if (sentCount st + failedCount st) mod 10 = 0 then
        st\<lparr>store := update_campaigns_eq_id campaignId
                       (\<lambda>c. c\<lparr>sent_count := sentCount st, failed_count := failedCount st\<rparr>) (store st),
           trace := trace st @ [Save_progress campaignId (sentCount st) (failedCount st)]\<rparr>
      else st)"

fun send_loop :: "env \<Rightarrow> string \<Rightarrow> template option \<Rightarrow> placeholder_mappings \<Rightarrow> smtp_config option \<Rightarrow> nat
    \<Rightarrow> recipient list \<Rightarrow> run_state \<Rightarrow> run_state" where
  "send_loop e campaignId t m smtpConfig i [] st = st"
| "send_loop e campaignId t m smtpConfig i (r # rs) st =
     send_loop e campaignId t m smtpConfig (Suc i) rs
       (checkpoint campaignId (attempt e t m smtpConfig i r st))"

text \<open>The final campaign update, after the loop.\<close>

definition final_update :: "env \<Rightarrow> string \<Rightarrow> nat \<Rightarrow> run_state \<Rightarrow> run_state" where
  "final_update e campaignId n st =
     (let isCompleted = (sentCount st + failedCount st = n);
          new_status = (if isCompleted then Completed else Paused);
          stamp = (if isCompleted then Some (now e n) else None)
      in st\<lparr>store := update_campaigns_eq_id campaignId
                        (\<lambda>c. c\<lparr>campaign_state := new_status, sent_count := sentCount st,
                                failed_count := failedCount st, completed_at := stamp\<rparr>) (store st),
            trace := trace st @ [Save_final campaignId new_status (sentCount st) (failedCount st) stamp]\<rparr>)"

definition start_state :: "db \<Rightarrow> run_state" where
  "start_state supabase = \<lparr>sentCount = 0, failedCount = 0, store = supabase, trace = []\<rparr>"

definition sendEmailsInBackground :: "env \<Rightarrow> string \<Rightarrow> template option \<Rightarrow> recipient list
    \<Rightarrow> placeholder_mappings \<Rightarrow> smtp_config option \<Rightarrow> db \<Rightarrow> run_state" where
  "sendEmailsInBackground e campaignId t recipients m smtpConfig supabase =
     final_update e campaignId (length recipients)
       (send_loop e campaignId t m smtpConfig 0 recipients (start_state supabase))"

section \<open>The launch handler\<close>

record campaign_data =
  template :: "template option"
  csvData :: "csv_row list"
  placeholderMappings :: placeholder_mappings
  smtpConfig :: "smtp_config option"

text \<open>
  A request: its method, its \<^verbatim>\<open>authorization\<close> header and its body. \<open>Inl message\<close> is a
  body that \<^verbatim>\<open>req.json()\<close> or the destructuring rejects with that message; \<open>Inr\<close> carries
  the campaign id and the campaign data: a template or \<^verbatim>\<open>null\<close>, the array of rows, the
  mapping object, and the sender configuration, \<open>None\<close> when it is not in the payload.
\<close>

record request =
  req_method :: string
  req_authorization :: "string option"
  req_json :: "string + (string \<times> campaign_data)"

datatype response_body = No_body | Started string nat | Error_message string

datatype response = Response nat response_body

text \<open>
  The result of a call: the response, the store at the moment the response is made, and
  the run started with \<^verbatim>\<open>EdgeRuntime.waitUntil\<close>, if any, taken to its end.
\<close>

record launch_result =
  response :: response
  store_at_response :: db
  background :: "run_state option"

text \<open>\<^verbatim>\<open>s.replace('Bearer ', '')\<close>: a string pattern, so only its first occurrence goes.\<close>

fun remove_first :: "string \<Rightarrow> string \<Rightarrow> string" where
  "remove_first pat [] = []"
| "remove_first pat (c # cs) =
     (if prefix pat (c # cs) then drop (length pat) (c # cs) else c # remove_first pat cs)"

text \<open>The token, or \<open>None\<close> when \<^verbatim>\<open>!token\<close> holds: no header, or nothing left of it.\<close>

definition token_of :: "request \<Rightarrow> string option" where
  "token_of req =
     (case req_authorization req of
        None \<Rightarrow> None
      | Some authHeader \<Rightarrow>
          if remove_first ''Bearer '' authHeader = [] then None
          else Some (remove_first ''Bearer '' authHeader))"

definition failure :: "string \<Rightarrow> db \<Rightarrow> launch_result" where
  "failure message supabase =
     \<lparr>response = Response 500 (Error_message message), store_at_response = supabase,
      background = None\<rparr>"

definition make_recipient :: "string \<Rightarrow> string \<Rightarrow> placeholder_mappings \<Rightarrow> csv_row \<Rightarrow> recipient" where
  "make_recipient campaignId user m row =
     \<lparr>recipient_id = None, campaign_id = campaignId, user_id = user,
      email = recipient_email m row, status = Pending, data = row\<rparr>"

definition handler :: "env \<Rightarrow> request \<Rightarrow> db \<Rightarrow> launch_result" where
  "handler e req supabase =
     (if req_method req = ''OPTIONS'' then
        \<lparr>response = Response 200 No_body, store_at_response = supabase, background = None\<rparr>
      else
        (case req_json req of
           Inl message \<Rightarrow> failure message supabase
         | Inr (campaignId, campaignData) \<Rightarrow>
             (case token_of req of
                None \<Rightarrow> failure ''Authorization token required'' supabase
              | Some token \<Rightarrow>
                  (case getUser e token of
                     None \<Rightarrow> failure ''Invalid authorization token'' supabase
                   | Some user \<Rightarrow>
                       (let recipients = map (make_recipient campaignId user (placeholderMappings campaignData))
                                             (csvData campaignData)
                        in if recipientsError e recipients then
                             failure ''Failed to insert recipients'' supabase
                           else if campaignUpdateError e campaignId then
                             failure ''Failed to update campaign'' (insert_recipients recipients supabase)
                           else
                             (let started = update_campaigns_eq_id campaignId
                                              (\<lambda>c. c\<lparr>campaign_state := Active,
                                                      total_recipients := length (csvData campaignData),
                                                      sent_count := 0, failed_count := 0\<rparr>)
                                              (insert_recipients recipients supabase)
                              in \<lparr>response = Response 200 (Started campaignId (length (csvData campaignData))),
                                  store_at_response = started,
                                  background = Some (sendEmailsInBackground e campaignId (template campaignData)
                                                       recipients (placeholderMappings campaignData)
                                                       (smtpConfig campaignData) started)\<rparr>))))))"

text \<open>The store once the call and the run it started are over.\<close>

definition final_store :: "launch_result \<Rightarrow> db" where
  "final_store res = (case background res of None \<Rightarrow> store_at_response res | Some run \<Rightarrow> store run)"

section \<open>Reading a run\<close>


fun is_campaign_write :: "event \<Rightarrow> bool" where
  "is_campaign_write (Save_progress c s f) = True"
| "is_campaign_write (Save_final c st s f ts) = True"
| "is_campaign_write ev = False"

definition background_trace :: "launch_result \<Rightarrow> event list" where
  "background_trace res = (case background res of None \<Rightarrow> [] | Some run \<Rightarrow> trace run)"


text \<open>A recipient renders when the rendering raises no runtime error for it.\<close>

definition renders :: "template option \<Rightarrow> placeholder_mappings \<Rightarrow> recipient \<Rightarrow> bool" where
  "renders t m r = (case personalize t m (data r) of Inl f \<Rightarrow> False | Inr personalized \<Rightarrow> True)"


section \<open>Example inputs\<close>

text \<open>A template, a mapping, rows, a store holding one draft campaign and collaborators
  whose mail function fails at the positions a predicate picks, for the worked examples
  below.\<close>

definition welcome_mail :: template where
  "welcome_mail = \<lparr>subject = Some ''Hi {{name}}'', body = Some ''Dear {{name}}, welcome.''\<rparr>"

definition name_mapping :: placeholder_mappings where
  "name_mapping = [(''{{name}}'', ''firstName'')]"

definition row_of :: "string \<Rightarrow> string \<Rightarrow> csv_row" where
  "row_of first_name address = [''firstName'' \<mapsto> first_name, ''email'' \<mapsto> address]"

definition ana :: csv_row where
  "ana = row_of ''Ana'' ''ana@x.org''"

definition bo :: csv_row where
  "bo = row_of ''Bo'' ''bo@x.org''"

definition cy :: csv_row where
  "cy = row_of ''Cy'' ''cy@x.org''"

definition sender :: smtp_config where
  "sender = \<lparr>host = ''smtp.x.org'', port = 587, senderEmail = ''team@x.org'',
             senderName = ''Team'', appPassword = ''pw''\<rparr>"

definition world :: "(nat \<Rightarrow> bool) \<Rightarrow> env" where
  "world failing =
     \<lparr>getUser = (\<lambda>token. if token = ''secret'' then Some ''u1'' else None),
      recipientsError = (\<lambda>rs. False),
      campaignUpdateError = (\<lambda>c. False),
      send_email = (\<lambda>i d. if failing i then Some ''mailbox unavailable'' else None),
      now = (\<lambda>i. ''2025-06-21''),
      typeError = (\<lambda>f. ''TypeError'')\<rparr>"

definition draft_store :: db where
  "draft_store =
     \<lparr>recipients_table = [],
      campaigns_table = [''c1'' \<mapsto> \<lparr>campaign_state = Draft, total_recipients = 0, sent_count = 0,
                                    failed_count = 0, completed_at = None\<rparr>]\<rparr>"

definition launch_with :: "template option \<Rightarrow> csv_row list \<Rightarrow> smtp_config option \<Rightarrow> request" where
  "launch_with t rows smtp =
     \<lparr>req_method = ''POST'', req_authorization = Some ''Bearer secret'',
      req_json = Inr (''c1'', \<lparr>template = t, csvData = rows,
                               placeholderMappings = name_mapping, smtpConfig = smtp\<rparr>)\<rparr>"

definition launch :: "csv_row list \<Rightarrow> smtp_config option \<Rightarrow> request" where
  "launch rows smtp = launch_with (Some welcome_mail) rows smtp"

definition recipients_of :: "csv_row list \<Rightarrow> recipient list" where
  "recipients_of rows = map (make_recipient ''c1'' ''u1'' name_mapping) rows"

section \<open>Literal replacement, as a reference\<close>

text \<open>
  Replacing every occurrence of a token by a value, said without regular expressions:
  cut the text at each occurrence of the token, leftmost first, and join the pieces
  with the value.
\<close>

function split_on :: "string \<Rightarrow> string \<Rightarrow> string \<Rightarrow> string list" where
  "split_on tok piece rest =
     (if tok \<noteq> [] \<and> prefix tok rest then piece # split_on tok [] (drop (length tok) rest)
      else (case rest of
              [] \<Rightarrow> [piece]
            | c # cs \<Rightarrow> split_on tok (piece @ [c]) cs))"
  by pat_completeness auto
termination
  by (relation "measure (\<lambda>(tok, piece, rest). length rest)") (auto simp: prefix_def)

declare split_on.simps [simp del]

fun join :: "string \<Rightarrow> string list \<Rightarrow> string" where
  "join sep [] = []"
| "join sep [p] = p"
| "join sep (p # q # ps) = p @ sep @ join sep (q # ps)"

definition replace_every_occurrence :: "string \<Rightarrow> string \<Rightarrow> string \<Rightarrow> string" where
  "replace_every_occurrence tok val s = join val (split_on tok [] s)"

definition or_empty :: "string option \<Rightarrow> string" where
  "or_empty a = (case a of None \<Rightarrow> [] | Some s \<Rightarrow> s)"

fun substitute_in_order :: "placeholder_mappings \<Rightarrow> csv_row \<Rightarrow> string \<Rightarrow> string" where
  "substitute_in_order [] row s = s"
| "substitute_in_order ((tok, col) # entries) row s =
     substitute_in_order entries row (replace_every_occurrence tok (or_empty (row col)) s)"

text \<open>A text holds a replacement pattern when a dollar sign in it is followed by a
  dollar sign, an ampersand, a backquote or an apostrophe.\<close>

fun has_pattern :: "string \<Rightarrow> bool" where
  "has_pattern (c # d # t) =
     ((c = CHR ''$'' \<and> (d = CHR ''$'' \<or> d = CHR 0x60 \<or> d = CHR ''&'' \<or> d = CHR 0x27))
      \<or> has_pattern (d # t))"
| "has_pattern t = False"

text \<open>An entry is plain for a row when its token is not empty and the row has a value
  of its own for the entry's column that is not empty and holds no replacement
  pattern.\<close>

definition plain_entry :: "csv_row \<Rightarrow> string \<times> string \<Rightarrow> bool" where
  "plain_entry row e =
     (fst e \<noteq> [] \<and>
      (case row (snd e) of None \<Rightarrow> False | Some val \<Rightarrow> val \<noteq> [] \<and> \<not> has_pattern val))"

section \<open>Properties of the rendering\<close>

lemma GetSubstitution_no_pattern:
  "\<not> has_pattern repl \<Longrightarrow> GetSubstitution matched pre post repl = repl"
  by (induction matched pre post repl rule: GetSubstitution.induct) auto

lemma split_on_not_Nil: "split_on tok piece rest \<noteq> []"
proof (induction tok piece rest rule: split_on.induct)
  case (1 tok piece rest)
  show ?case
  proof (cases "tok \<noteq> [] \<and> prefix tok rest")
    case True
    then show ?thesis by (subst split_on.simps) simp
  next
    case False
    then show ?thesis
      using "1.IH"(2) by (subst split_on.simps) (auto split: list.splits)
  qed
qed

lemma join_Cons: "ps \<noteq> [] \<Longrightarrow> join sep (p # ps) = p @ sep @ join sep ps"
  by (cases ps) simp_all

lemma replace_from_join_split_on:
  "tok \<noteq> [] \<Longrightarrow> \<not> has_pattern val \<Longrightarrow>
   \<exists>out. replace_from tok (Str val) pre rest = Some out
         \<and> join val (split_on tok piece rest) = piece @ out"
proof (induction tok piece rest arbitrary: pre rule: split_on.induct)
  case (1 tok piece rest)
  note tok = \<open>tok \<noteq> []\<close> and val = \<open>\<not> has_pattern val\<close>
  show ?case
  proof (cases "prefix tok rest")
    case True
    from "1.IH"(1) [of "pre @ tok"] True tok val
    obtain out where out: "replace_from tok (Str val) (pre @ tok) (drop (length tok) rest) = Some out"
      and j: "join val (split_on tok [] (drop (length tok) rest)) = out"
      by auto
    have "replace_from tok (Str val) pre rest = Some (val @ out)"
      using True tok val out
      by (subst replace_from.simps) (simp add: GetSubstitution_no_pattern)
    moreover have "join val (split_on tok piece rest) = piece @ val @ out"
      using True tok j by (subst split_on.simps) (simp add: join_Cons split_on_not_Nil)
    ultimately show ?thesis by simp
  next
    case False
    show ?thesis
    proof (cases rest)
      case Nil
      then show ?thesis
        using False tok
        by (subst split_on.simps, subst replace_from.simps) simp
    next
      case (Cons c cs)
      from "1.IH"(2) [of c cs "pre @ [c]"] False Cons tok val
      obtain out where out: "replace_from tok (Str val) (pre @ [c]) cs = Some out"
        and j: "join val (split_on tok (piece @ [c]) cs) = (piece @ [c]) @ out"
        by auto
      have "replace_from tok (Str val) pre rest = Some (c # out)"
        using False Cons tok out by (subst replace_from.simps) simp
      moreover have "join val (split_on tok piece rest) = piece @ c # out"
        using False Cons j by (subst split_on.simps) simp
      ultimately show ?thesis by simp
    qed
  qed
qed

lemma replace_g_literal:
  "tok \<noteq> [] \<Longrightarrow> \<not> has_pattern val \<Longrightarrow>
   replace_g tok (Str val) s = Some (replace_every_occurrence tok val s)"
  using replace_from_join_split_on [of tok val "[]" s "[]"]
  by (auto simp: replace_g_def replace_every_occurrence_def)

lemma personalize_loop_plain:
  "list_all (plain_entry row) m \<Longrightarrow>
   personalize_loop m row (Some s, Some b)
     = Inr (Some (substitute_in_order m row s), Some (substitute_in_order m row b))"
proof (induction m arbitrary: s b)
  case Nil
  then show ?case by simp
next
  case (Cons e m)
  obtain tok col where e: "e = (tok, col)" by (cases e)
  from Cons.prems have pe: "plain_entry row (tok, col)" and rest: "list_all (plain_entry row) m"
    by (simp_all add: e)
  from pe obtain val where val: "row col = Some val" "val \<noteq> []" "\<not> has_pattern val" "tok \<noteq> []"
    by (auto simp: plain_entry_def split: option.splits)
  have v: "js_or (js_get row col) (Str []) = Str val"
    using val by (simp add: js_or_def js_get_def)
  have lit: "\<And>x. replace_in tok (Str val) (Some x) = Inr (Some (replace_every_occurrence tok val x))"
    using val by (simp add: replace_in_def replace_g_literal)
  show ?case
    using val by (simp add: e v lit Let_def or_empty_def Cons.IH [OF rest])
qed

section \<open>Claims about rendering and addressing\<close>

text \<open>
  Claim C1. A placeholder that has no mapping entry, or whose mapped column is empty or
  absent in the recipient's row, stays verbatim in the rendered subject and body. The
  dispatcher does not do this for a mapped placeholder: with the column absent from the
  row, and again with the column present and empty, it deletes the token, the text
  coming out as \<open>Hi \<close> and \<open>Dear ,\<close>. The preview step renders the same template, mapping
  and row with the token left in place.
\<close>

theorem dispatcher_deletes_token_without_value:
  "personalize (Some \<lparr>subject = Some ''Hi {{name}}'', body = Some ''Dear {{name}},''\<rparr>)
       [(''{{name}}'', ''firstName'')] Map.empty = Inr (Some ''Hi '', Some ''Dear ,'')
   \<and> personalize (Some \<lparr>subject = Some ''Hi {{name}}'', body = Some ''Dear {{name}},''\<rparr>)
       [(''{{name}}'', ''firstName'')] [''firstName'' \<mapsto> ''''] = Inr (Some ''Hi '', Some ''Dear ,'')
   \<and> generatePreview src \<lparr>subject = Some ''Hi {{name}}'', body = Some ''Dear {{name}},''\<rparr>
       [''{{name}}''] [(''{{name}}'', ''firstName'')] (Some Map.empty)
     = Inr (Some ''Hi {{name}}'', Some ''Dear {{name}},'')"
  by code_simp

text \<open>
  Claim C2, as amended. For a template that has a subject and a body, when every mapped
  token is non-empty, as a placeholder token is, and every value substituted is the row's
  own, non-empty and holds
  none of the replacement patterns \<open>$$\<close>, \<open>$&\<close>, \<open>$`\<close> and \<open>$'\<close>, the rendered subject and
  body are the template's subject and body after the mapping entries have been applied
  one after the other, in the mapping's order, each to the text the entries before it
  produced: an entry replaces every occurrence of its token, found as an exact string
  from the left, by the recipient's value as it stands. A value that holds the token of a
  later entry is therefore substituted again by that entry.
\<close>

theorem render_applies_entries_in_order:
  "list_all (plain_entry row) m \<Longrightarrow>
   personalize (Some \<lparr>subject = Some s, body = Some b\<rparr>) m row
     = Inr (Some (substitute_in_order m row s), Some (substitute_in_order m row b))"
  by (simp add: personalize_def personalize_loop_plain)

theorem render_applies_entries_in_order_witness:
  "list_all (plain_entry [''first'' \<mapsto> ''Ana'', ''town'' \<mapsto> ''{{name}}'', ''fee'' \<mapsto> ''$100''])
       [(''{{name}}'', ''first''), (''{{city}}'', ''town''), (''{{fee}}'', ''fee'')]
   \<and> personalize (Some \<lparr>subject = Some ''Hi {{name}}, pay {{fee}}'',
                         body = Some ''{{name}} of {{city}}, {{name}}''\<rparr>)
       [(''{{name}}'', ''first''), (''{{city}}'', ''town''), (''{{fee}}'', ''fee'')]
       [''first'' \<mapsto> ''Ana'', ''town'' \<mapsto> ''{{name}}'', ''fee'' \<mapsto> ''$100'']
     = Inr (Some ''Hi Ana, pay $100'', Some ''Ana of {{name}}, Ana'')"
proof -
  have h: "list_all (plain_entry [''first'' \<mapsto> ''Ana'', ''town'' \<mapsto> ''{{name}}'', ''fee'' \<mapsto> ''$100''])
       [(''{{name}}'', ''first''), (''{{city}}'', ''town''), (''{{fee}}'', ''fee'')]"
    by (simp add: plain_entry_def)
  have e: "substitute_in_order [(''{{name}}'', ''first''), (''{{city}}'', ''town''), (''{{fee}}'', ''fee'')]
             [''first'' \<mapsto> ''Ana'', ''town'' \<mapsto> ''{{name}}'', ''fee'' \<mapsto> ''$100'']
             ''Hi {{name}}, pay {{fee}}'' = ''Hi Ana, pay $100''"
    by code_simp
  have f: "substitute_in_order [(''{{name}}'', ''first''), (''{{city}}'', ''town''), (''{{fee}}'', ''fee'')]
             [''first'' \<mapsto> ''Ana'', ''town'' \<mapsto> ''{{name}}'', ''fee'' \<mapsto> ''$100'']
             ''{{name}} of {{city}}, {{name}}'' = ''Ana of {{name}}, Ana''"
    by code_simp
  show ?thesis
    using h render_applies_entries_in_order [OF h, of "''Hi {{name}}, pay {{fee}}''"
            "''{{name}} of {{city}}, {{name}}''"]
    by (simp only: e f)
qed

text \<open>
  Against C2 as it is written. The value \<open>{{b}}\<close> put in for \<open>{{a}}\<close> is itself replaced when
  the entry for \<open>{{b}}\<close> comes later in the mapping, so the subject \<open>{{a}}\<close> ends as \<open>Z\<close> and not
  as \<open>{{b}}\<close>. A value is read as a replacement pattern: \<open>$&\<close> puts the token back, \<open>$$\<close>
  leaves one dollar sign, \<open>$`\<close> repeats the text before the token and \<open>$'\<close> the text after
  it. And a template that is \<^verbatim>\<open>null\<close>, or that has no subject, is not rendered at all: the
  rendering raises.
\<close>

theorem render_value_not_literal_counterexample:
  "personalize (Some \<lparr>subject = Some ''{{a}}'', body = Some ''{{a}} {{b}}''\<rparr>)
       [(''{{a}}'', ''x''), (''{{b}}'', ''y'')] [''x'' \<mapsto> ''{{b}}'', ''y'' \<mapsto> ''Z'']
     = Inr (Some ''Z'', Some ''Z Z'')
   \<and> personalize (Some \<lparr>subject = Some ''Hi {{name}}!'', body = Some ''{{name}}''\<rparr>)
       [(''{{name}}'', ''n'')] [''n'' \<mapsto> ''$&'']
     = Inr (Some ''Hi {{name}}!'', Some ''{{name}}'')
   \<and> personalize (Some \<lparr>subject = Some ''Hi {{name}}!'', body = Some ''{{name}}''\<rparr>)
       [(''{{name}}'', ''n'')] [''n'' \<mapsto> ''$$'']
     = Inr (Some ''Hi $!'', Some ''$'')
   \<and> personalize (Some \<lparr>subject = Some ''Hi {{name}}!'', body = Some ''{{name}}''\<rparr>)
       [(''{{name}}'', ''n'')] [''n'' \<mapsto> [CHR ''$'', CHR 0x60]]
     = Inr (Some ''Hi Hi !'', Some [])
   \<and> personalize (Some \<lparr>subject = Some ''Hi {{name}}!'', body = Some ''{{name}}''\<rparr>)
       [(''{{name}}'', ''n'')] [''n'' \<mapsto> [CHR ''$'', CHR 0x27]]
     = Inr (Some ''Hi !!'', Some [])
   \<and> personalize None [(''{{name}}'', ''n'')] [''n'' \<mapsto> ''Ana''] = Inl Read_on_null
   \<and> personalize (Some \<lparr>subject = None, body = Some ''{{name}}''\<rparr>)
       [(''{{name}}'', ''n'')] [''n'' \<mapsto> ''Ana''] = Inl Replace_on_undefined"
  by code_simp

text \<open>
  Claim C10, as amended. The address of a created recipient is the row's value in the
  column that \<open>{{email}}\<close> is mapped to, when the mapping has such an entry, the entry
  names a column (it is not the empty string) and the row has a value of its own there
  that is not empty. When the entry is missing or empty, the address is the row's \<open>email\<close>
  field. It is the row's \<open>email\<close> field as well when the row's value in the column is
  empty, and when the row has no property under the column's name, neither its own nor
  one that every object inherits (such as \<open>toString\<close> or \<open>constructor\<close>).
\<close>

theorem recipient_email_resolution:
  "(map_of m ''{{email}}'' = Some col \<and> col \<noteq> [] \<and> row col = Some v \<and> v \<noteq> []
      \<longrightarrow> recipient_email m row = Str v)
   \<and> (map_of m ''{{email}}'' = Some col \<and> col \<noteq> []
        \<and> (row col = Some [] \<or> (row col = None \<and> col \<notin> set object_prototype))
      \<longrightarrow> recipient_email m row = js_get row ''email'')
   \<and> (map_of m ''{{email}}'' = None \<or> map_of m ''{{email}}'' = Some []
      \<longrightarrow> recipient_email m row = js_get row ''email'')"
  by (auto simp: recipient_email_def email_column_def js_or_def js_get_def
           split: option.splits)

theorem recipient_email_resolution_witness:
  "recipient_email [(''{{email}}'', ''Mail'')] [''Mail'' \<mapsto> ''a@x.org'', ''email'' \<mapsto> ''b@x.org'']
       = Str ''a@x.org''
   \<and> recipient_email [(''{{email}}'', ''Mail'')] [''email'' \<mapsto> ''b@x.org''] = Str ''b@x.org''
   \<and> recipient_email [(''name'', ''Name'')] [''Mail'' \<mapsto> ''a@x.org'', ''email'' \<mapsto> ''b@x.org'']
       = Str ''b@x.org''"
  using recipient_email_resolution [where m = "[(''{{email}}'', ''Mail'')]" and col = "''Mail''"
          and row = "[''Mail'' \<mapsto> ''a@x.org'', ''email'' \<mapsto> ''b@x.org'']" and v = "''a@x.org''"]
        recipient_email_resolution [where m = "[(''{{email}}'', ''Mail'')]" and col = "''Mail''"
          and row = "[''email'' \<mapsto> ''b@x.org'']"]
        recipient_email_resolution [where m = "[(''name'', ''Name'')]"
          and row = "[''Mail'' \<mapsto> ''a@x.org'', ''email'' \<mapsto> ''b@x.org'']"]
  by (simp add: js_get_def object_prototype_def)

text \<open>
  Against C10 as it is written. The mapping has an entry for \<open>{{email}}\<close>, it names the
  column with the empty header, and the row has an address in that column; the handler
  takes the address from the \<open>email\<close> field all the same. And with \<open>{{email}}\<close> mapped to a
  column \<open>toString\<close> that the row does not have, the row's \<open>email\<close> field is not used as
  the fallback: the address is the function every object inherits under that name.
\<close>

theorem recipient_email_empty_column_counterexample:
  "map_of [(''{{email}}'', [])] ''{{email}}'' = Some ([] :: string)
   \<and> [([] :: string) \<mapsto> ''a@x.org'', ''email'' \<mapsto> ''b@x.org''] [] = Some ''a@x.org''
   \<and> recipient_email [(''{{email}}'', [])] [([] :: string) \<mapsto> ''a@x.org'', ''email'' \<mapsto> ''b@x.org'']
       = Str ''b@x.org''
   \<and> [''email'' \<mapsto> ''b@x.org''] ''toString'' = None
   \<and> recipient_email [(''{{email}}'', ''toString'')] [''email'' \<mapsto> ''b@x.org'']
       = Inherited ''toString''"
  by code_simp

section \<open>Properties of the dispatch loop\<close>

lemma attempt_sum:
  "sentCount (attempt e t m smtp i r st) + failedCount (attempt e t m smtp i r st)
     = Suc (sentCount st + failedCount st)"
  by (simp add: attempt_def catch_block_def split: sum.splits option.splits)

lemma attempt_one_counter:
  "(sentCount (attempt e t m smtp i r st) = Suc (sentCount st)
      \<and> failedCount (attempt e t m smtp i r st) = failedCount st)
   \<or> (sentCount (attempt e t m smtp i r st) = sentCount st
      \<and> failedCount (attempt e t m smtp i r st) = Suc (failedCount st))"
  by (simp add: attempt_def catch_block_def split: sum.splits option.splits)

lemma checkpoint_counters [simp]:
  "sentCount (checkpoint c st) = sentCount st" "failedCount (checkpoint c st) = failedCount st"
  by (simp_all add: checkpoint_def)

lemma send_loop_append:
  "send_loop e c t m smtp i (xs @ ys) st
     = send_loop e c t m smtp (i + length xs) ys (send_loop e c t m smtp i xs st)"
  by (induction xs arbitrary: i st) simp_all

lemma send_loop_snoc:
  "send_loop e c t m smtp i (rs @ [r]) st
     = checkpoint c (attempt e t m smtp (i + length rs) r (send_loop e c t m smtp i rs st))"
  by (simp add: send_loop_append)

lemma send_loop_sum:
  "sentCount (send_loop e c t m smtp i rs st) + failedCount (send_loop e c t m smtp i rs st)
     = sentCount st + failedCount st + length rs"
proof (induction rs arbitrary: i st)
  case Nil
  show ?case by simp
next
  case (Cons r rs)
  show ?case
    using Cons.IH [of "Suc i" "checkpoint c (attempt e t m smtp i r st)"]
          attempt_sum [of e t m smtp i r st]
    by simp
qed

lemma run_sum:
  "sentCount (send_loop e c t m smtp 0 rs (start_state d))
     + failedCount (send_loop e c t m smtp 0 rs (start_state d)) = length rs"
  using send_loop_sum [of e c t m smtp 0 rs "start_state d"] by (simp add: start_state_def)

lemma send_loop_all_succeed:
  "list_all (renders t m) rs \<Longrightarrow> (\<forall>i x. send_email e i x = None) \<Longrightarrow>
   sentCount (send_loop e c t m smtp i rs st) = sentCount st + length rs
   \<and> failedCount (send_loop e c t m smtp i rs st) = failedCount st"
  by (induction rs arbitrary: i st) (auto simp: attempt_def renders_def split: sum.splits)

lemma send_loop_all_fail:
  "(\<forall>i x. send_email e i x \<noteq> None) \<Longrightarrow>
   sentCount (send_loop e c t m smtp i rs st) = sentCount st
   \<and> failedCount (send_loop e c t m smtp i rs st) = failedCount st + length rs"
proof (induction rs arbitrary: i st)
  case Nil
  show ?case by simp
next
  case (Cons r rs)
  have "sentCount (attempt e t m smtp i r st) = sentCount st
        \<and> failedCount (attempt e t m smtp i r st) = Suc (failedCount st)"
  proof (cases "personalize t m (data r)")
    case (Inl f)
    then show ?thesis by (simp add: attempt_def catch_block_def)
  next
    case (Inr personalized)
    from Cons.prems have "send_email e i (emailData r personalized smtp) \<noteq> None"
      by blast
    then obtain msg where "send_email e i (emailData r personalized smtp) = Some msg"
      by auto
    with Inr show ?thesis by (simp add: attempt_def catch_block_def)
  qed
  then show ?case
    using Cons.IH [OF Cons.prems, of "Suc i" "checkpoint c (attempt e t m smtp i r st)"] by simp
qed

lemma list_all_take: "list_all P xs \<Longrightarrow> list_all P (take j xs)"
  by (auto simp: list_all_iff dest: in_set_takeD)








lemma campaign_writes_attempt:
  "filter is_campaign_write (trace (attempt e t m smtp i r st)) = filter is_campaign_write (trace st)"
  by (simp add: attempt_def catch_block_def split: sum.splits option.splits)

lemma campaign_writes_checkpoint:
  "filter is_campaign_write (trace (checkpoint c st))
     = filter is_campaign_write (trace st)
       @ (if (sentCount st + failedCount st) mod 10 = 0
          then [Save_progress c (sentCount st) (failedCount st)] else [])"
  by (simp add: checkpoint_def)

lemma upt_filter_snoc:
  "filter P [1..<Suc (Suc n)] = filter P [1..<Suc n] @ (if P (Suc n) then [Suc n] else [])"
  by simp

lemma campaign_writes_send_loop:
  "filter is_campaign_write (trace (send_loop e c t m smtp 0 rs (start_state d)))
     = map (\<lambda>k. Save_progress c
                   (sentCount (send_loop e c t m smtp 0 (take k rs) (start_state d)))
                   (failedCount (send_loop e c t m smtp 0 (take k rs) (start_state d))))
           (filter (\<lambda>k. k mod 10 = 0) [1..<Suc (length rs)])"
proof (induction rs rule: rev_induct)
  case Nil
  show ?case by (simp add: start_state_def)
next
  case (snoc r rs)
  let ?prev = "send_loop e c t m smtp 0 rs (start_state d)"
  let ?att = "attempt e t m smtp (length rs) r ?prev"
  have sum: "sentCount ?att + failedCount ?att = Suc (length rs)"
    using attempt_sum [of e t m smtp "length rs" r ?prev] run_sum [of e c t m smtp rs d]
    by simp
  have old: "map (\<lambda>k. Save_progress c
                   (sentCount (send_loop e c t m smtp 0 (take k (rs @ [r])) (start_state d)))
                   (failedCount (send_loop e c t m smtp 0 (take k (rs @ [r])) (start_state d))))
               (filter (\<lambda>k. k mod 10 = 0) [1..<Suc (length rs)])
           = map (\<lambda>k. Save_progress c
                   (sentCount (send_loop e c t m smtp 0 (take k rs) (start_state d)))
                   (failedCount (send_loop e c t m smtp 0 (take k rs) (start_state d))))
               (filter (\<lambda>k. k mod 10 = 0) [1..<Suc (length rs)])"
    by (rule map_cong) auto
  have "filter is_campaign_write (trace (send_loop e c t m smtp 0 (rs @ [r]) (start_state d)))
          = filter is_campaign_write (trace ?prev)
            @ (if Suc (length rs) mod 10 = 0
               then [Save_progress c (sentCount ?att) (failedCount ?att)] else [])"
    by (simp add: send_loop_snoc campaign_writes_checkpoint campaign_writes_attempt sum
             del: upt_Suc)
  also have "\<dots> = map (\<lambda>k. Save_progress c
                   (sentCount (send_loop e c t m smtp 0 (take k (rs @ [r])) (start_state d)))
                   (failedCount (send_loop e c t m smtp 0 (take k (rs @ [r])) (start_state d))))
               (filter (\<lambda>k. k mod 10 = 0) [1..<Suc (length rs)])
            @ (if Suc (length rs) mod 10 = 0
               then [Save_progress c (sentCount ?att) (failedCount ?att)] else [])"
    by (simp only: old snoc.IH)
  also have "\<dots> = map (\<lambda>k. Save_progress c
                   (sentCount (send_loop e c t m smtp 0 (take k (rs @ [r])) (start_state d)))
                   (failedCount (send_loop e c t m smtp 0 (take k (rs @ [r])) (start_state d))))
               (filter (\<lambda>k. k mod 10 = 0) [1..<Suc (Suc (length rs))])"
    by (simp only: upt_filter_snoc map_append) (simp add: send_loop_snoc)
  also have "Suc (Suc (length rs)) = Suc (length (rs @ [r]))"
    by simp
  finally show ?case .
qed

lemma multiples_of_ten_below_26: "filter (\<lambda>k. k mod 10 = 0) [1..<Suc 25] = [10, 20 :: nat]"
  by code_simp

lemma final_update_trace:
  "trace (final_update e c n st)
     = trace st @ [Save_final c (if sentCount st + failedCount st = n then Completed else Paused)
                     (sentCount st) (failedCount st)
                     (if sentCount st + failedCount st = n then Some (now e n) else None)]"
  by (simp add: final_update_def Let_def)

lemma final_update_counters [simp]:
  "sentCount (final_update e c n st) = sentCount st"
  "failedCount (final_update e c n st) = failedCount st"
  by (simp_all add: final_update_def Let_def)

section \<open>Properties of the store and of the handler\<close>

lemma campaigns_insert_recipients [simp]:
  "campaigns_table (insert_recipients rs d) = campaigns_table d"
  by (simp add: insert_recipients_def)

lemma campaigns_update_recipients [simp]:
  "campaigns_table (update_recipients_eq_id i f d) = campaigns_table d"
  by (simp add: update_recipients_eq_id_def)

lemma recipients_update_campaigns [simp]:
  "recipients_table (update_campaigns_eq_id c f d) = recipients_table d"
  by (simp add: update_campaigns_eq_id_def split: option.splits)

lemma campaigns_update_campaigns:
  "campaigns_table (update_campaigns_eq_id c' f d) c
     = (if c = c' then map_option f (campaigns_table d c) else campaigns_table d c)"
  by (simp add: update_campaigns_eq_id_def split: option.splits)

lemma campaigns_attempt:
  "campaigns_table (store (attempt e t m smtp i r st)) = campaigns_table (store st)"
  by (simp add: attempt_def catch_block_def split: sum.splits option.splits)

lemma campaigns_checkpoint:
  "campaigns_table (store (checkpoint c st)) c
     = (if (sentCount st + failedCount st) mod 10 = 0
        then map_option (\<lambda>row. row\<lparr>sent_count := sentCount st, failed_count := failedCount st\<rparr>)
               (campaigns_table (store st) c)
        else campaigns_table (store st) c)"
  by (simp add: checkpoint_def campaigns_update_campaigns)



lemma final_update_store:
  "campaigns_table (store (final_update e c n st)) c
     = map_option (\<lambda>row. row\<lparr>campaign_state := (if sentCount st + failedCount st = n then Completed else Paused),
                               sent_count := sentCount st, failed_count := failedCount st,
                               completed_at := (if sentCount st + failedCount st = n then Some (now e n) else None)\<rparr>)
         (campaigns_table (store st) c)"
  by (simp add: final_update_def Let_def campaigns_update_campaigns)

text \<open>
  The campaign's record after a run of the loop: untouched while fewer than ten
  recipients have been gone through, and otherwise the record the run started with, its
  two counts overwritten by the counters as they stood at the last multiple of ten.
\<close>

lemma campaign_record_send_loop:
  "campaigns_table (store (send_loop e c t m smtp 0 rs (start_state d))) c
     = (if length rs < 10 then campaigns_table d c
        else map_option
               (\<lambda>row. row\<lparr>sent_count := sentCount (send_loop e c t m smtp 0
                                           (take (10 * (length rs div 10)) rs) (start_state d)),
                           failed_count := failedCount (send_loop e c t m smtp 0
                                           (take (10 * (length rs div 10)) rs) (start_state d))\<rparr>)
               (campaigns_table d c))"
proof (induction rs rule: rev_induct)
  case Nil
  show ?case by (simp add: start_state_def)
next
  case (snoc r rs)
  let ?n = "length rs"
  let ?prev = "send_loop e c t m smtp 0 rs (start_state d)"
  let ?att = "attempt e t m smtp ?n r ?prev"
  let ?new = "send_loop e c t m smtp 0 (rs @ [r]) (start_state d)"
  have new: "?new = checkpoint c ?att"
    by (simp add: send_loop_snoc)
  have sum: "sentCount ?att + failedCount ?att = Suc ?n"
    using attempt_sum [of e t m smtp ?n r ?prev] run_sum [of e c t m smtp rs d] by simp
  show ?case
  proof (cases "Suc ?n mod 10 = 0")
    case True
    have ge: "\<not> Suc ?n < 10"
      using True by (cases "Suc ?n < 10") simp_all
    have full: "10 * (Suc ?n div 10) = Suc ?n"
      using True mult_div_mod_eq [of 10 "Suc ?n"] by simp
    have "campaigns_table (store ?new) c
            = map_option (\<lambda>row. row\<lparr>sent_count := sentCount ?att, failed_count := failedCount ?att\<rparr>)
                (campaigns_table (store ?prev) c)"
      unfolding new using True by (simp add: campaigns_checkpoint sum campaigns_attempt)
    also have "\<dots> = map_option (\<lambda>row. row\<lparr>sent_count := sentCount ?att, failed_count := failedCount ?att\<rparr>)
                (campaigns_table d c)"
      by (simp add: snoc.IH option.map_comp comp_def)
    also have "\<dots> = map_option (\<lambda>row. row\<lparr>sent_count := sentCount ?new, failed_count := failedCount ?new\<rparr>)
                (campaigns_table d c)"
      by (simp only: new checkpoint_counters)
    finally show ?thesis
      using ge full by simp
  next
    case False
    have same: "Suc ?n div 10 = ?n div 10"
      using False by (simp add: div_Suc)
    from False have "Suc ?n \<noteq> 10"
      by auto
    then have lt: "(Suc ?n < 10) = (?n < 10)"
      by linarith
    have le: "10 * (?n div 10) \<le> ?n"
      by simp
    have tbl: "campaigns_table (store ?new) c = campaigns_table (store ?prev) c"
      unfolding new using False by (simp add: campaigns_checkpoint sum campaigns_attempt)
    have tk: "take (10 * (?n div 10)) (rs @ [r]) = take (10 * (?n div 10)) rs"
      using le by simp
    have len: "length (rs @ [r]) = Suc ?n"
      by simp
    show ?thesis
      by (simp only: tbl snoc.IH len same lt tk)
  qed
qed

lemma handler_accepted:
  assumes "req_method req \<noteq> ''OPTIONS''" and "req_json req = Inr (c, cd)"
    and "token_of req = Some tok" and "getUser e tok = Some u"
    and "\<not> recipientsError e (map (make_recipient c u (placeholderMappings cd)) (csvData cd))"
    and "\<not> campaignUpdateError e c"
  shows "handler e req d =
     \<lparr>response = Response 200 (Started c (length (csvData cd))),
      store_at_response =
        update_campaigns_eq_id c
          (\<lambda>row. row\<lparr>campaign_state := Active, total_recipients := length (csvData cd),
                      sent_count := 0, failed_count := 0\<rparr>)
          (insert_recipients (map (make_recipient c u (placeholderMappings cd)) (csvData cd)) d),
      background =
        Some (sendEmailsInBackground e c (template cd)
                (map (make_recipient c u (placeholderMappings cd)) (csvData cd))
                (placeholderMappings cd) (smtpConfig cd)
                (update_campaigns_eq_id c
                   (\<lambda>row. row\<lparr>campaign_state := Active, total_recipients := length (csvData cd),
                               sent_count := 0, failed_count := 0\<rparr>)
                   (insert_recipients (map (make_recipient c u (placeholderMappings cd)) (csvData cd)) d)))\<rparr>"
  using assms by (simp add: handler_def Let_def)

lemma world_accepts:
  "req_method (launch_with t rows smtp) \<noteq> ''OPTIONS''"
  "req_json (launch_with t rows smtp)
     = Inr (''c1'', \<lparr>template = t, csvData = rows,
                      placeholderMappings = name_mapping, smtpConfig = smtp\<rparr>)"
  "token_of (launch_with t rows smtp) = Some ''secret''"
  "getUser (world f) ''secret'' = Some ''u1''"
  "\<not> recipientsError (world f) rs"
  "\<not> campaignUpdateError (world f) c"
  by (simp_all add: launch_with_def world_def token_of_def)

text \<open>
  The updates do reach the rows when the recipients carry the ids of their rows: the same
  three recipients, given the ids 0, 1 and 2 under which they were inserted, end as sent,
  failed with the message, and sent.
\<close>

lemma marks_reach_rows_with_ids:
  "map (\<lambda>row. (row_status row, row_error_message row))
     (recipients_table (store (sendEmailsInBackground (world (\<lambda>i. i = 1)) ''c1'' (Some welcome_mail)
        (map (\<lambda>ir. (snd ir)\<lparr>recipient_id := Some (fst ir)\<rparr>) (enumerate 0 (recipients_of [ana, bo, cy])))
        name_mapping (Some sender) (insert_recipients (recipients_of [ana, bo, cy]) draft_store))))
   = [(Sent, None), (Failed, Some ''mailbox unavailable''), (Sent, None)]"
  by code_simp

lemma update_recipients_undefined: "update_recipients_eq_id None f d = d"
  by (simp add: update_recipients_eq_id_def)

lemma attempt_without_id:
  "recipient_id r = None \<Longrightarrow> store (attempt e t m smtp i r st) = store st"
  by (simp add: attempt_def catch_block_def update_recipients_undefined
        split: sum.splits option.splits)

lemma recipients_checkpoint:
  "recipients_table (store (checkpoint c st)) = recipients_table (store st)"
  by (simp add: checkpoint_def)

lemma send_loop_without_ids:
  "list_all (\<lambda>r. recipient_id r = None) rs \<Longrightarrow>
   recipients_table (store (send_loop e c t m smtp i rs st)) = recipients_table (store st)"
  by (induction rs arbitrary: i st) (simp_all add: attempt_without_id recipients_checkpoint)

lemma recipients_final_update:
  "recipients_table (store (final_update e c n st)) = recipients_table (store st)"
  by (simp add: final_update_def Let_def)

lemma handler_rows_after_run:
  assumes "req_method req \<noteq> ''OPTIONS''" and "req_json req = Inr (c, cd)"
    and "token_of req = Some tok" and "getUser e tok = Some u"
    and "\<not> recipientsError e (map (make_recipient c u (placeholderMappings cd)) (csvData cd))"
    and "\<not> campaignUpdateError e c"
  shows "recipients_table (final_store (handler e req d))
           = recipients_table d
             @ map new_row (enumerate (length (recipients_table d))
                              (map (make_recipient c u (placeholderMappings cd)) (csvData cd)))"
proof -
  have ids: "list_all (\<lambda>r. recipient_id r = None)
               (map (make_recipient c u (placeholderMappings cd)) (csvData cd))"
    by (simp add: list_all_iff make_recipient_def)
  show ?thesis
    unfolding handler_accepted [OF assms, of d]
    by (simp add: final_store_def sendEmailsInBackground_def recipients_final_update
          send_loop_without_ids [OF ids] start_state_def insert_recipients_def)
qed

lemma rows_after_example_run:
  "recipients_table (final_store (handler (world f) (launch rows smtp) draft_store))
     = map new_row (enumerate 0 (map (make_recipient ''c1'' ''u1'' name_mapping) rows))"
  using handler_rows_after_run [where req = "launch rows smtp" and c = "''c1''" and tok = "''secret''"
          and cd = "\<lparr>template = Some welcome_mail, csvData = rows,
                     placeholderMappings = name_mapping, smtpConfig = smtp\<rparr>"
          and e = "world f" and u = "''u1''" and d = draft_store]
  by (simp add: world_accepts launch_def draft_store_def)

section \<open>Claims about the launch handler\<close>

text \<open>
  Claim C3, as amended. A launch whose recipient list is empty is not rejected. When the
  request carries a token the auth service accepts and the store reports no error, the
  handler answers 200 with \<open>totalRecipients\<close> 0, creates no recipient row, sets the
  campaign to active with all three counts 0 and starts the dispatcher; the dispatcher
  sends nothing and its only write marks the campaign completed with 0 sent and 0 failed.
\<close>

theorem empty_launch_is_accepted:
  assumes "req_method req \<noteq> ''OPTIONS''" and "req_json req = Inr (c, cd)"
    and "token_of req = Some tok" and "getUser e tok = Some u"
    and "\<not> recipientsError e []" and "\<not> campaignUpdateError e c"
    and "csvData cd = []"
  shows "response (handler e req d) = Response 200 (Started c 0)
    \<and> recipients_table (store_at_response (handler e req d)) = recipients_table d
    \<and> campaigns_table (store_at_response (handler e req d)) c
        = map_option (\<lambda>row. row\<lparr>campaign_state := Active, total_recipients := 0,
                                  sent_count := 0, failed_count := 0\<rparr>) (campaigns_table d c)
    \<and> background_trace (handler e req d) = [Save_final c Completed 0 0 (Some (now e 0))]
    \<and> recipients_table (final_store (handler e req d)) = recipients_table d
    \<and> map_option campaign_state (campaigns_table (final_store (handler e req d)) c)
        = map_option (\<lambda>row. Completed) (campaigns_table d c)"
proof -
  from assms(5,7) have ins: "\<not> recipientsError e (map (make_recipient c u (placeholderMappings cd)) (csvData cd))"
    by simp
  note h = handler_accepted [OF assms(1-4) ins assms(6), of d]
  show ?thesis
    unfolding h
    by (simp add: assms(7) background_trace_def final_store_def sendEmailsInBackground_def
          final_update_trace final_update_store start_state_def insert_recipients_def
          campaigns_update_campaigns option.map_comp comp_def final_update_def Let_def)
qed

theorem empty_launch_is_accepted_witness:
  "response (handler (world (\<lambda>i. False)) (launch [] (Some sender)) draft_store)
     = Response 200 (Started ''c1'' 0)
   \<and> background_trace (handler (world (\<lambda>i. False)) (launch [] (Some sender)) draft_store)
     = [Save_final ''c1'' Completed 0 0 (Some ''2025-06-21'')]"
proof -
  note a = world_accepts(1-3) [of "Some welcome_mail" "[]" "Some sender"]
  note b = world_accepts(4) [of "\<lambda>i. False"] world_accepts(5) [of "\<lambda>i. False" "[]"]
           world_accepts(6) [of "\<lambda>i. False" "''c1''"]
  show ?thesis
    using empty_launch_is_accepted [OF a b, of draft_store] by (simp add: world_def launch_def)
qed

text \<open>
  Against C3 as it is written: a launch with no rows is answered with 200 and not with
  an error, and the draft campaign is active when the response is made and completed once
  the run is over.
\<close>

theorem empty_launch_not_rejected_counterexample:
  "response (handler (world (\<lambda>i. False)) (launch [] (Some sender)) draft_store)
     = Response 200 (Started ''c1'' 0)
   \<and> map_option campaign_state (campaigns_table draft_store ''c1'') = Some Draft
   \<and> map_option campaign_state
        (campaigns_table (store_at_response
           (handler (world (\<lambda>i. False)) (launch [] (Some sender)) draft_store)) ''c1'') = Some Active
   \<and> map_option campaign_state
        (campaigns_table (final_store
           (handler (world (\<lambda>i. False)) (launch [] (Some sender)) draft_store)) ''c1'') = Some Completed"
  by code_simp




section \<open>Claims about the dispatch loop\<close>

text \<open>
  Claim C5. The inter-message delay follows every attempt, failed or not. In the
  dispatcher the wait of 1000 ms stands inside the \<^verbatim>\<open>try\<close> block, after the update that
  marks the recipient sent, so a failed attempt is not followed by it: with two
  recipients of which the first fails, the second invocation comes straight after the
  first recipient is marked failed, and the only wait of the run follows the second.
\<close>

theorem no_delay_after_failed_send:
  "trace (sendEmailsInBackground (world (\<lambda>i. i = 0)) ''c1'' (Some welcome_mail)
         (recipients_of [ana, bo]) name_mapping (Some sender) draft_store)
   = [Invoke_send_email \<lparr>mail_to = Str ''ana@x.org'', mail_subject = Some ''Hi Ana'',
                          mail_html = Some ''Dear Ana, welcome.'', mail_smtp = Some sender\<rparr>,
      Mark_failed None ''mailbox unavailable'',
      Invoke_send_email \<lparr>mail_to = Str ''bo@x.org'', mail_subject = Some ''Hi Bo'',
                          mail_html = Some ''Dear Bo, welcome.'', mail_smtp = Some sender\<rparr>,
      Mark_sent None ''2025-06-21'', Wait 1000,
      Save_final ''c1'' Completed 1 1 (Some ''2025-06-21'')]"
  by code_simp

text \<open>
  Claim C6. After any number \<open>k\<close> of iterations of the dispatch loop, the running counters
  add up to \<open>k\<close>, which is at most the number of recipients; the state after \<open>k\<close>
  iterations is the one the run goes on from; the next iteration raises exactly one of
  the two counters by one; and when the run is over the counters add up to the number of
  recipients.
\<close>

theorem counters_bounded_by_total:
  "k \<le> length rs \<Longrightarrow>
     send_loop e c t m smtp 0 rs (start_state d)
       = send_loop e c t m smtp k (drop k rs) (send_loop e c t m smtp 0 (take k rs) (start_state d))
   \<and> sentCount (send_loop e c t m smtp 0 (take k rs) (start_state d))
       + failedCount (send_loop e c t m smtp 0 (take k rs) (start_state d)) = k
   \<and> sentCount (send_loop e c t m smtp 0 (take k rs) (start_state d))
       + failedCount (send_loop e c t m smtp 0 (take k rs) (start_state d)) \<le> length rs
   \<and> (k < length rs \<longrightarrow>
        (sentCount (send_loop e c t m smtp 0 (take (Suc k) rs) (start_state d))
           = Suc (sentCount (send_loop e c t m smtp 0 (take k rs) (start_state d)))
         \<and> failedCount (send_loop e c t m smtp 0 (take (Suc k) rs) (start_state d))
           = failedCount (send_loop e c t m smtp 0 (take k rs) (start_state d)))
        \<or> (sentCount (send_loop e c t m smtp 0 (take (Suc k) rs) (start_state d))
           = sentCount (send_loop e c t m smtp 0 (take k rs) (start_state d))
         \<and> failedCount (send_loop e c t m smtp 0 (take (Suc k) rs) (start_state d))
           = Suc (failedCount (send_loop e c t m smtp 0 (take k rs) (start_state d)))))
   \<and> sentCount (sendEmailsInBackground e c t rs m smtp d)
       + failedCount (sendEmailsInBackground e c t rs m smtp d) = length rs"
proof (intro conjI impI)
  assume k: "k \<le> length rs"
  let ?at = "\<lambda>j. send_loop e c t m smtp 0 (take j rs) (start_state d)"
  show "send_loop e c t m smtp 0 rs (start_state d)
          = send_loop e c t m smtp k (drop k rs) (?at k)"
    using send_loop_append [of e c t m smtp 0 "take k rs" "drop k rs" "start_state d"] k
    by simp
  show sum: "sentCount (?at k) + failedCount (?at k) = k"
    using run_sum [of e c t m smtp "take k rs" d] k by simp
  show "sentCount (?at k) + failedCount (?at k) \<le> length rs"
    using sum k by simp
  show "sentCount (sendEmailsInBackground e c t rs m smtp d)
       + failedCount (sendEmailsInBackground e c t rs m smtp d) = length rs"
    by (simp add: sendEmailsInBackground_def run_sum)
  assume lt: "k < length rs"
  then have "take (Suc k) rs = take k rs @ [rs ! k]"
    by (simp add: take_Suc_conv_app_nth)
  then have step: "?at (Suc k) = checkpoint c (attempt e t m smtp k (rs ! k) (?at k))"
    using send_loop_snoc [of e c t m smtp 0 "take k rs" "rs ! k" "start_state d"] k
    by simp
  show "(sentCount (?at (Suc k)) = Suc (sentCount (?at k))
         \<and> failedCount (?at (Suc k)) = failedCount (?at k))
        \<or> (sentCount (?at (Suc k)) = sentCount (?at k)
         \<and> failedCount (?at (Suc k)) = Suc (failedCount (?at k)))"
    using attempt_one_counter [of e t m smtp k "rs ! k" "?at k"]
    by (simp only: step checkpoint_counters)
qed

theorem counters_bounded_by_total_witness:
  "2 \<le> length (recipients_of [ana, bo, cy])
   \<and> sentCount (send_loop (world (\<lambda>i. i = 1)) ''c1'' (Some welcome_mail) name_mapping (Some sender) 0
        (take 2 (recipients_of [ana, bo, cy])) (start_state draft_store))
     + failedCount (send_loop (world (\<lambda>i. i = 1)) ''c1'' (Some welcome_mail) name_mapping (Some sender) 0
        (take 2 (recipients_of [ana, bo, cy])) (start_state draft_store))
     = 2
   \<and> sentCount (sendEmailsInBackground (world (\<lambda>i. i = 1)) ''c1'' (Some welcome_mail)
        (recipients_of [ana, bo, cy]) name_mapping (Some sender) draft_store)
     + failedCount (sendEmailsInBackground (world (\<lambda>i. i = 1)) ''c1'' (Some welcome_mail)
        (recipients_of [ana, bo, cy]) name_mapping (Some sender) draft_store)
     = 3"
proof -
  have len: "length (recipients_of [ana, bo, cy]) = 3"
    by (simp add: recipients_of_def)
  have h: "2 \<le> length (recipients_of [ana, bo, cy])"
    by (simp add: len)
  note w = counters_bounded_by_total [OF h, of "world (\<lambda>i. i = 1)" "''c1''" "Some welcome_mail"
             name_mapping "Some sender" draft_store]
  show ?thesis
    using h w by (simp only: len)
qed

lemma campaign_writes_prefix:
  assumes "k \<le> length rs"
  shows "filter is_campaign_write (trace (send_loop e c t m smtp 0 (take k rs) (start_state d)))
     = map (\<lambda>j. Save_progress c
                   (sentCount (send_loop e c t m smtp 0 (take j rs) (start_state d)))
                   (failedCount (send_loop e c t m smtp 0 (take j rs) (start_state d))))
           (filter (\<lambda>j. j mod 10 = 0) [1..<Suc k])"
proof -
  have "map (\<lambda>j. Save_progress c
                   (sentCount (send_loop e c t m smtp 0 (take j (take k rs)) (start_state d)))
                   (failedCount (send_loop e c t m smtp 0 (take j (take k rs)) (start_state d))))
           (filter (\<lambda>j. j mod 10 = 0) [1..<Suc k])
        = map (\<lambda>j. Save_progress c
                   (sentCount (send_loop e c t m smtp 0 (take j rs) (start_state d)))
                   (failedCount (send_loop e c t m smtp 0 (take j rs) (start_state d))))
           (filter (\<lambda>j. j mod 10 = 0) [1..<Suc k])"
    by (rule map_cong) (auto simp: min_def)
  then show ?thesis
    using campaign_writes_send_loop [of e c t m smtp "take k rs" d] assms by simp
qed

lemma campaign_record_prefix:
  assumes "k \<le> length rs"
  shows "campaigns_table (store (send_loop e c t m smtp 0 (take k rs) (start_state d))) c
     = (if k < 10 then campaigns_table d c
        else map_option
               (\<lambda>row. row\<lparr>sent_count := sentCount (send_loop e c t m smtp 0
                                           (take (10 * (k div 10)) rs) (start_state d)),
                           failed_count := failedCount (send_loop e c t m smtp 0
                                           (take (10 * (k div 10)) rs) (start_state d))\<rparr>)
               (campaigns_table d c))"
proof -
  have len: "length (take k rs) = k"
    using assms by simp
  have tk: "take (10 * (k div 10)) (take k rs) = take (10 * (k div 10)) rs"
    by (simp add: min_def)
  show ?thesis
    using campaign_record_send_loop [of e c t m smtp "take k rs" d]
    by (simp only: len tk)
qed

text \<open>
  Claim C7. The progress update is made after the 10th, 20th, ... recipient has been gone
  through and at no other moment. After \<open>k\<close> iterations of the loop, the writes made to
  the campaign are one progress update for every multiple of ten up to \<open>k\<close>, each with the
  campaign's id and the counters as they stood after that many attempts; the campaign's
  record is untouched while \<open>k\<close> is below ten and afterwards holds, as sent and failed
  counts, the counters of the last multiple of ten; and the counters after \<open>k\<close> iterations
  add up to \<open>k\<close>. For 25 recipients that all succeed, the writes to the campaign are a
  progress update of 10 sent and 0 failed, one of 20 and 0, and the final update with
  status completed, 25 sent and 0 failed, and the record holds 10 and 0 after the tenth
  attempt, 20 and 0 after the twentieth, and completed with 25 and 0 at the end.
\<close>

theorem progress_saved_every_ten_attempts:
  "k \<le> length rs \<Longrightarrow>
     filter is_campaign_write (trace (send_loop e c t m smtp 0 (take k rs) (start_state d)))
       = map (\<lambda>j. Save_progress c
                     (sentCount (send_loop e c t m smtp 0 (take j rs) (start_state d)))
                     (failedCount (send_loop e c t m smtp 0 (take j rs) (start_state d))))
             (filter (\<lambda>j. j mod 10 = 0) [1..<Suc k])
   \<and> campaigns_table (store (send_loop e c t m smtp 0 (take k rs) (start_state d))) c
       = (if k < 10 then campaigns_table d c
          else map_option
                 (\<lambda>row. row\<lparr>sent_count := sentCount (send_loop e c t m smtp 0
                                             (take (10 * (k div 10)) rs) (start_state d)),
                             failed_count := failedCount (send_loop e c t m smtp 0
                                             (take (10 * (k div 10)) rs) (start_state d))\<rparr>)
                 (campaigns_table d c))
   \<and> sentCount (send_loop e c t m smtp 0 (take k rs) (start_state d))
       + failedCount (send_loop e c t m smtp 0 (take k rs) (start_state d)) = k
   \<and> (length rs = 25 \<and> list_all (renders t m) rs \<and> (\<forall>i x. send_email e i x = None) \<longrightarrow>
        filter is_campaign_write (trace (sendEmailsInBackground e c t rs m smtp d))
          = [Save_progress c 10 0, Save_progress c 20 0,
             Save_final c Completed 25 0 (Some (now e 25))]
        \<and> campaigns_table (store (send_loop e c t m smtp 0 (take 10 rs) (start_state d))) c
          = map_option (\<lambda>row. row\<lparr>sent_count := 10, failed_count := 0\<rparr>) (campaigns_table d c)
        \<and> campaigns_table (store (send_loop e c t m smtp 0 (take 20 rs) (start_state d))) c
          = map_option (\<lambda>row. row\<lparr>sent_count := 20, failed_count := 0\<rparr>) (campaigns_table d c)
        \<and> campaigns_table (store (sendEmailsInBackground e c t rs m smtp d)) c
          = map_option (\<lambda>row. row\<lparr>campaign_state := Completed, sent_count := 25, failed_count := 0,
                                    completed_at := Some (now e 25)\<rparr>) (campaigns_table d c))"
proof (intro conjI impI)
  assume k: "k \<le> length rs"
  show "filter is_campaign_write (trace (send_loop e c t m smtp 0 (take k rs) (start_state d)))
       = map (\<lambda>j. Save_progress c
                     (sentCount (send_loop e c t m smtp 0 (take j rs) (start_state d)))
                     (failedCount (send_loop e c t m smtp 0 (take j rs) (start_state d))))
             (filter (\<lambda>j. j mod 10 = 0) [1..<Suc k])"
    by (rule campaign_writes_prefix [OF k])
  show "campaigns_table (store (send_loop e c t m smtp 0 (take k rs) (start_state d))) c
       = (if k < 10 then campaigns_table d c
          else map_option
                 (\<lambda>row. row\<lparr>sent_count := sentCount (send_loop e c t m smtp 0
                                             (take (10 * (k div 10)) rs) (start_state d)),
                             failed_count := failedCount (send_loop e c t m smtp 0
                                             (take (10 * (k div 10)) rs) (start_state d))\<rparr>)
                 (campaigns_table d c))"
    by (rule campaign_record_prefix [OF k])
  show "sentCount (send_loop e c t m smtp 0 (take k rs) (start_state d))
       + failedCount (send_loop e c t m smtp 0 (take k rs) (start_state d)) = k"
    using run_sum [of e c t m smtp "take k rs" d] k by simp
next
  assume h: "length rs = 25 \<and> list_all (renders t m) rs \<and> (\<forall>i x. send_email e i x = None)"
  then have len: "length rs = 25" and rend: "list_all (renders t m) rs"
    and ok: "\<forall>i x. send_email e i x = None"
    by simp_all
  let ?at = "\<lambda>j. send_loop e c t m smtp 0 (take j rs) (start_state d)"
  let ?loop = "send_loop e c t m smtp 0 rs (start_state d)"
  have cnt: "\<And>j. sentCount (?at j) = min 25 j \<and> failedCount (?at j) = 0"
    using send_loop_all_succeed [OF list_all_take [OF rend] ok] len
    by (simp add: start_state_def)
  have all: "sentCount ?loop = 25 \<and> failedCount ?loop = 0"
    using send_loop_all_succeed [OF rend ok, of c smtp 0 "start_state d"] len
    by (simp add: start_state_def)
  have tr: "trace (sendEmailsInBackground e c t rs m smtp d)
              = trace ?loop @ [Save_final c Completed (sentCount ?loop) (failedCount ?loop)
                                 (Some (now e (length rs)))]"
    by (simp add: sendEmailsInBackground_def final_update_trace run_sum)
  show "filter is_campaign_write (trace (sendEmailsInBackground e c t rs m smtp d))
          = [Save_progress c 10 0, Save_progress c 20 0,
             Save_final c Completed 25 0 (Some (now e 25))]"
    by (simp only: tr filter_append campaign_writes_send_loop len multiples_of_ten_below_26 cnt all)
       simp
  have ten: "(10::nat) \<le> length rs" and twenty: "(20::nat) \<le> length rs"
    using len by simp_all
  show "campaigns_table (store (?at 10)) c
          = map_option (\<lambda>row. row\<lparr>sent_count := 10, failed_count := 0\<rparr>) (campaigns_table d c)"
    by (simp add: campaign_record_prefix [OF ten] cnt)
  show "campaigns_table (store (?at 20)) c
          = map_option (\<lambda>row. row\<lparr>sent_count := 20, failed_count := 0\<rparr>) (campaigns_table d c)"
    by (simp add: campaign_record_prefix [OF twenty] cnt)
  have rec: "campaigns_table (store ?loop) c
          = map_option (\<lambda>row. row\<lparr>sent_count := 20, failed_count := 0\<rparr>) (campaigns_table d c)"
    using len by (simp add: campaign_record_send_loop cnt)
  show "campaigns_table (store (sendEmailsInBackground e c t rs m smtp d)) c
          = map_option (\<lambda>row. row\<lparr>campaign_state := Completed, sent_count := 25, failed_count := 0,
                                    completed_at := Some (now e 25)\<rparr>) (campaigns_table d c)"
    using all len
    by (simp add: sendEmailsInBackground_def final_update_store rec option.map_comp comp_def)
qed

theorem progress_saved_every_ten_attempts_witness:
  "(20::nat) \<le> length (recipients_of (replicate 25 ana))
   \<and> length (recipients_of (replicate 25 ana)) = 25
   \<and> list_all (renders (Some welcome_mail) name_mapping) (recipients_of (replicate 25 ana))
   \<and> (\<forall>i x. send_email (world (\<lambda>i. False)) i x = None)
   \<and> filter is_campaign_write (trace (sendEmailsInBackground (world (\<lambda>i. False)) ''c1''
        (Some welcome_mail) (recipients_of (replicate 25 ana)) name_mapping (Some sender) draft_store))
     = [Save_progress ''c1'' 10 0, Save_progress ''c1'' 20 0,
        Save_final ''c1'' Completed 25 0 (Some ''2025-06-21'')]
   \<and> campaigns_table (store (send_loop (world (\<lambda>i. False)) ''c1'' (Some welcome_mail) name_mapping
        (Some sender) 0 (take 10 (recipients_of (replicate 25 ana))) (start_state draft_store))) ''c1''
     = Some \<lparr>campaign_state = Draft, total_recipients = 0, sent_count = 10, failed_count = 0,
             completed_at = None\<rparr>
   \<and> campaigns_table (store (sendEmailsInBackground (world (\<lambda>i. False)) ''c1''
        (Some welcome_mail) (recipients_of (replicate 25 ana)) name_mapping (Some sender) draft_store)) ''c1''
     = Some \<lparr>campaign_state = Completed, total_recipients = 0, sent_count = 25, failed_count = 0,
             completed_at = Some ''2025-06-21''\<rparr>"
proof -
  have len: "length (recipients_of (replicate 25 ana)) = 25"
    by (simp add: recipients_of_def)
  have k: "(20::nat) \<le> length (recipients_of (replicate 25 ana))"
    by (simp add: len)
  have one: "renders (Some welcome_mail) name_mapping (make_recipient ''c1'' ''u1'' name_mapping ana)"
    by code_simp
  have rend: "list_all (renders (Some welcome_mail) name_mapping) (recipients_of (replicate 25 ana))"
    by (simp add: recipients_of_def list_all_iff one)
  have ok: "\<forall>i x. send_email (world (\<lambda>i. False)) i x = None"
    by (simp add: world_def)
  have stamp: "now (world (\<lambda>i. False)) 25 = ''2025-06-21''"
    by (simp add: world_def)
  have tbl: "campaigns_table draft_store ''c1''
               = Some \<lparr>campaign_state = Draft, total_recipients = 0, sent_count = 0,
                        failed_count = 0, completed_at = None\<rparr>"
    by (simp add: draft_store_def)
  note w = progress_saved_every_ten_attempts [OF k, where e = "world (\<lambda>i. False)" and c = "''c1''"
             and t = "Some welcome_mail" and m = name_mapping and smtp = "Some sender"
             and d = draft_store, THEN conjunct2, THEN conjunct2, THEN conjunct2]
  from w len rend ok
  have "filter is_campaign_write (trace (sendEmailsInBackground (world (\<lambda>i. False)) ''c1''
        (Some welcome_mail) (recipients_of (replicate 25 ana)) name_mapping (Some sender) draft_store))
          = [Save_progress ''c1'' 10 0, Save_progress ''c1'' 20 0,
             Save_final ''c1'' Completed 25 0 (Some (now (world (\<lambda>i. False)) 25))]
        \<and> campaigns_table (store (send_loop (world (\<lambda>i. False)) ''c1'' (Some welcome_mail) name_mapping
             (Some sender) 0 (take 10 (recipients_of (replicate 25 ana))) (start_state draft_store))) ''c1''
          = map_option (\<lambda>row. row\<lparr>sent_count := 10, failed_count := 0\<rparr>) (campaigns_table draft_store ''c1'')
        \<and> campaigns_table (store (sendEmailsInBackground (world (\<lambda>i. False)) ''c1''
             (Some welcome_mail) (recipients_of (replicate 25 ana)) name_mapping (Some sender) draft_store)) ''c1''
          = map_option (\<lambda>row. row\<lparr>campaign_state := Completed, sent_count := 25, failed_count := 0,
                                    completed_at := Some (now (world (\<lambda>i. False)) 25)\<rparr>)
              (campaigns_table draft_store ''c1'')"
    by blast
  then show ?thesis
    using len k rend ok by (simp only: stamp tbl) simp
qed

text \<open>
  Claim C8. A recipient whose send fails is marked failed with the error's message, and
  the other recipients are not affected. The dispatcher issues that update with the
  filter \<^verbatim>\<open>.eq('id', recipient.id)\<close>, and the recipients it is given are the objects the
  handler built for the insert, which have no \<^verbatim>\<open>id\<close>. For three rows of which the second
  fails, the loop does attempt all three and issues the three updates, each with
  an undefined id, and every row the launch created still has status pending and no
  error message when the run is over.
\<close>

theorem recipient_rows_stay_pending:
  "background_trace (handler (world (\<lambda>i. i = 1)) (launch [ana, bo, cy] (Some sender)) draft_store)
     = [Invoke_send_email \<lparr>mail_to = Str ''ana@x.org'', mail_subject = Some ''Hi Ana'',
                            mail_html = Some ''Dear Ana, welcome.'', mail_smtp = Some sender\<rparr>,
        Mark_sent None ''2025-06-21'', Wait 1000,
        Invoke_send_email \<lparr>mail_to = Str ''bo@x.org'', mail_subject = Some ''Hi Bo'',
                            mail_html = Some ''Dear Bo, welcome.'', mail_smtp = Some sender\<rparr>,
        Mark_failed None ''mailbox unavailable'',
        Invoke_send_email \<lparr>mail_to = Str ''cy@x.org'', mail_subject = Some ''Hi Cy'',
                            mail_html = Some ''Dear Cy, welcome.'', mail_smtp = Some sender\<rparr>,
        Mark_sent None ''2025-06-21'', Wait 1000,
        Save_final ''c1'' Completed 2 1 (Some ''2025-06-21'')]
   \<and> map row_id (recipients_table (final_store
        (handler (world (\<lambda>i. i = 1)) (launch [ana, bo, cy] (Some sender)) draft_store)))
     = [0, 1, 2]
   \<and> map row_status (recipients_table (final_store
        (handler (world (\<lambda>i. i = 1)) (launch [ana, bo, cy] (Some sender)) draft_store)))
     = [Pending, Pending, Pending]
   \<and> map row_error_message (recipients_table (final_store
        (handler (world (\<lambda>i. i = 1)) (launch [ana, bo, cy] (Some sender)) draft_store)))
     = [None, None, None]"
proof -
  have tr: "background_trace (handler (world (\<lambda>i. i = 1)) (launch [ana, bo, cy] (Some sender)) draft_store)
     = [Invoke_send_email \<lparr>mail_to = Str ''ana@x.org'', mail_subject = Some ''Hi Ana'',
                            mail_html = Some ''Dear Ana, welcome.'', mail_smtp = Some sender\<rparr>,
        Mark_sent None ''2025-06-21'', Wait 1000,
        Invoke_send_email \<lparr>mail_to = Str ''bo@x.org'', mail_subject = Some ''Hi Bo'',
                            mail_html = Some ''Dear Bo, welcome.'', mail_smtp = Some sender\<rparr>,
        Mark_failed None ''mailbox unavailable'',
        Invoke_send_email \<lparr>mail_to = Str ''cy@x.org'', mail_subject = Some ''Hi Cy'',
                            mail_html = Some ''Dear Cy, welcome.'', mail_smtp = Some sender\<rparr>,
        Mark_sent None ''2025-06-21'', Wait 1000,
        Save_final ''c1'' Completed 2 1 (Some ''2025-06-21'')]"
    by code_simp
  show ?thesis
    by (simp only: tr rows_after_example_run) (simp add: new_row_def make_recipient_def)
qed

text \<open>
  Claim C9. The last thing a run does is the final campaign update. It writes the two
  counters, which add up to the number of recipients, with status completed and a
  completion timestamp; this is so when every send failed, the update then carrying 0
  sent and all recipients failed. In general the final update writes completed and a
  timestamp when the counters add up to the total it is given, and paused and no
  timestamp otherwise.
\<close>

theorem final_write_completes_campaign:
  "trace (sendEmailsInBackground e c t rs m smtp d)
     = trace (send_loop e c t m smtp 0 rs (start_state d))
       @ [Save_final c Completed
            (sentCount (send_loop e c t m smtp 0 rs (start_state d)))
            (failedCount (send_loop e c t m smtp 0 rs (start_state d)))
            (Some (now e (length rs)))]
   \<and> sentCount (send_loop e c t m smtp 0 rs (start_state d))
       + failedCount (send_loop e c t m smtp 0 rs (start_state d)) = length rs
   \<and> campaigns_table (store (sendEmailsInBackground e c t rs m smtp d)) c
       = map_option (\<lambda>row. row\<lparr>campaign_state := Completed,
                                 sent_count := sentCount (send_loop e c t m smtp 0 rs (start_state d)),
                                 failed_count := failedCount (send_loop e c t m smtp 0 rs (start_state d)),
                                 completed_at := Some (now e (length rs))\<rparr>)
           (campaigns_table (store (send_loop e c t m smtp 0 rs (start_state d))) c)
   \<and> ((\<forall>i x. send_email e i x \<noteq> None) \<longrightarrow>
        last (trace (sendEmailsInBackground e c t rs m smtp d))
          = Save_final c Completed 0 (length rs) (Some (now e (length rs))))
   \<and> last (trace (final_update e c n st))
       = Save_final c (if sentCount st + failedCount st = n then Completed else Paused)
           (sentCount st) (failedCount st)
           (if sentCount st + failedCount st = n then Some (now e n) else None)"
proof (intro conjI impI)
  let ?loop = "send_loop e c t m smtp 0 rs (start_state d)"
  show tr: "trace (sendEmailsInBackground e c t rs m smtp d)
     = trace ?loop @ [Save_final c Completed (sentCount ?loop) (failedCount ?loop)
                        (Some (now e (length rs)))]"
    by (simp add: sendEmailsInBackground_def final_update_trace run_sum)
  show "sentCount ?loop + failedCount ?loop = length rs"
    by (rule run_sum)
  show "campaigns_table (store (sendEmailsInBackground e c t rs m smtp d)) c
       = map_option (\<lambda>row. row\<lparr>campaign_state := Completed,
                                 sent_count := sentCount ?loop, failed_count := failedCount ?loop,
                                 completed_at := Some (now e (length rs))\<rparr>)
           (campaigns_table (store ?loop) c)"
    by (simp add: sendEmailsInBackground_def final_update_store run_sum)
  show "last (trace (final_update e c n st))
       = Save_final c (if sentCount st + failedCount st = n then Completed else Paused)
           (sentCount st) (failedCount st)
           (if sentCount st + failedCount st = n then Some (now e n) else None)"
    by (simp add: final_update_trace)
  assume "\<forall>i x. send_email e i x \<noteq> None"
  from send_loop_all_fail [OF this, of c t m smtp 0 rs "start_state d"]
  have "sentCount ?loop = 0" and "failedCount ?loop = length rs"
    by (simp_all add: start_state_def)
  then show "last (trace (sendEmailsInBackground e c t rs m smtp d))
          = Save_final c Completed 0 (length rs) (Some (now e (length rs)))"
    by (simp add: tr)
qed

theorem final_write_completes_campaign_witness:
  "(\<forall>i x. send_email (world (\<lambda>i. True)) i x \<noteq> None)
   \<and> last (trace (sendEmailsInBackground (world (\<lambda>i. True)) ''c1'' (Some welcome_mail)
        (recipients_of [ana, bo, cy]) name_mapping (Some sender) draft_store))
     = Save_final ''c1'' Completed 0 3 (Some ''2025-06-21'')"
proof -
  have h: "\<forall>i x. send_email (world (\<lambda>i. True)) i x \<noteq> None"
    by (simp add: world_def)
  have len: "length (recipients_of [ana, bo, cy]) = 3"
    by (simp add: recipients_of_def)
  have stamp: "now (world (\<lambda>i. True)) 3 = ''2025-06-21''"
    by (simp add: world_def)
  note w = final_write_completes_campaign [of "world (\<lambda>i. True)" "''c1''" "Some welcome_mail"
               "recipients_of [ana, bo, cy]" name_mapping "Some sender" draft_store,
               THEN conjunct2, THEN conjunct2, THEN conjunct2, THEN conjunct1]
  from w h have "last (trace (sendEmailsInBackground (world (\<lambda>i. True)) ''c1'' (Some welcome_mail)
        (recipients_of [ana, bo, cy]) name_mapping (Some sender) draft_store))
     = Save_final ''c1'' Completed 0 (length (recipients_of [ana, bo, cy]))
         (Some (now (world (\<lambda>i. True)) (length (recipients_of [ana, bo, cy]))))"
    by blast
  then show ?thesis
    using h by (simp only: len stamp) blast
qed

end
